theory Spec2Isabelle
  imports Complex_Main "HOL-Library.Char_ord" "HOL-Library.List_Lexorder"
    "HOL-Library.Product_Lexorder" "HOL-Library.Multiset"
begin

section \<open>Common conventions\<close>

text \<open>
  The scripts delegate all geometry to shapely/geopandas. A geometry is modelled by the set
  of points it covers (\<open>'p set\<close>): \<open>unary_union\<close> is the union of a collection,
  \<open>intersection\<close> and \<open>difference\<close> are \<open>\<inter>\<close> and \<open>-\<close>, a geometry is empty when its
  point set is. Reprojection (\<open>to_crs\<close>) is the identity: all inputs are taken in the
  equal-area system already. The operations whose result depends on the metric
  (\<open>buffer\<close>, \<open>envelope\<close>, \<open>area\<close>) are parameters of the model. Python floats are
  modelled by \<open>real\<close>.
\<close>

datatype error =
    SysExit string      \<comment> \<open>\<open>err(m)\<close>: message on stderr, then \<open>sys.exit(1)\<close>\<close>
  | ValueError string
  | NameError string
  | RuntimeError string
  | DataSourceError string \<comment> \<open>raised by \<open>gpd.read_file\<close> on a missing path\<close>

subsection \<open>Formatting integers, lower-casing\<close>

definition digit_char :: "nat \<Rightarrow> char" where
  "digit_char n = ''0123456789'' ! n"

fun str_nat :: "nat \<Rightarrow> string" where
  "str_nat n = (if n < 10 then [digit_char n] else str_nat (n div 10) @ [digit_char (n mod 10)])"

declare str_nat.simps [simp del]

definition str_int :: "int \<Rightarrow> string" where
  \<comment> \<open>Python's \<open>str\<close> of an \<open>int\<close>, as an f-string prints it\<close>
  "str_int i = (if i < 0 then ''-'' @ str_nat (nat (- i)) else str_nat (nat i))"

definition py_int :: "real \<Rightarrow> int" where
  \<comment> \<open>Python's \<open>int(x)\<close> on a float: truncation towards zero\<close>
  "py_int x = (if 0 \<le> x then \<lfloor>x\<rfloor> else \<lceil>x\<rceil>)"

definition lower_char :: "char \<Rightarrow> char" where
  "lower_char c =
     (case map_of (zip ''ABCDEFGHIJKLMNOPQRSTUVWXYZ'' ''abcdefghijklmnopqrstuvwxyz'') c of
        Some l \<Rightarrow> l | None \<Rightarrow> c)"

definition lower :: "string \<Rightarrow> string" where
  \<comment> \<open>\<open>str.lower()\<close> on ASCII text\<close>
  "lower s = map lower_char s"

subsection \<open>Geometry-only overlay\<close>

definition overlay_intersection :: "'p set list \<Rightarrow> 'p set list \<Rightarrow> 'p set list" where
  \<comment> \<open>\<open>gpd.overlay(a, b, how="intersection")\<close> on geometry columns: one row for each pair
      of rows that really intersect, left rows outermost\<close>
  "overlay_intersection xs ys =
     concat (map (\<lambda>a. map (\<lambda>b. a \<inter> b) (filter (\<lambda>b. a \<inter> b \<noteq> {}) ys)) xs)"

section \<open>Ring builder (scripts/03\_create\_buffers.py)\<close>

record 'p ring =
  ring_id :: string
  min_km :: real
  max_km :: "real option"
  geometry :: "'p set"

record 'p roads =
  has_fclass :: bool                       \<comment> \<open>\<open>"fclass" in roads.columns\<close>\<close>
  segments :: "(string \<times> 'p set) list"     \<comment> \<open>each row: its \<open>fclass\<close> cell and its geometry\<close>

record 'p ring_output =
  buffer_files :: "(string \<times> real \<times> 'p set) list"  \<comment> \<open>files written: name, \<open>dist_km\<close>, geometry\<close>
  rings :: "'p ring list"                           \<comment> \<open>rows of \<open>buffer_rings.shp\<close>\<close>

record ring_args =
  dist_arg :: "real list"
  chunk_size :: int
  road_classes :: "string list option"

definition filter_by_fclass :: "'p roads \<Rightarrow> string list \<Rightarrow> 'p roads" where
  "filter_by_fclass roads keep =
     (if \<not> has_fclass roads then roads
      else roads\<lparr>segments := filter (\<lambda>(c, g). lower c \<in> set (map lower keep)) (segments roads)\<rparr>)"

function chunk_loop ::
  "('p set \<Rightarrow> real \<Rightarrow> 'p set) \<Rightarrow> 'p set list \<Rightarrow> 'p set list \<Rightarrow> real \<Rightarrow> nat \<Rightarrow> nat \<Rightarrow>
   'p set list \<Rightarrow> 'p set list" where
  "chunk_loop buf roads_m aoi_m d_m c i parts =
     (if c = 0 \<or> length roads_m \<le> i then parts
      else
        let j = min (i + c) (length roads_m);
            buf_geoms = map (\<lambda>g. buf g d_m) (take (j - i) (drop i roads_m));
            lot_union = \<Union> (set buf_geoms);
            lot_clip = overlay_intersection [lot_union] aoi_m
        in chunk_loop buf roads_m aoi_m d_m c (i + c)
             (if lot_clip \<noteq> [] then parts @ [hd lot_clip] else parts))"
  by pat_completeness auto
termination
  by (relation "measure (\<lambda>(buf, roads_m, aoi_m, d_m, c, i, parts). length roads_m - i)") auto

declare chunk_loop.simps [simp del]

definition buffer_in_chunks ::
  "('p set \<Rightarrow> real \<Rightarrow> 'p set) \<Rightarrow> 'p set list \<Rightarrow> 'p set list \<Rightarrow> real \<Rightarrow> int \<Rightarrow>
   error + 'p set option" where
  \<comment> \<open>\<open>range(0, total, chunk_size)\<close> raises on step 0 and is empty on a negative step\<close>
  "buffer_in_chunks buf roads_m aoi_m d_m chunk =
     (if chunk = 0 then Inl (ValueError ''range() arg 3 must not be zero'')
      else
        let parts = (if chunk < 0 then [] else chunk_loop buf roads_m aoi_m d_m (nat chunk) 0 [])
        in if parts = [] then Inr None else Inr (Some (\<Union> (set parts))))"

definition buffer_file_name :: "real \<Rightarrow> string" where
  "buffer_file_name d = ''roads_buffer_'' @ str_int (py_int d) @ ''km.shp''"

fun buffers_loop ::
  "('p set \<Rightarrow> real \<Rightarrow> 'p set) \<Rightarrow> 'p set list \<Rightarrow> 'p set list \<Rightarrow> int \<Rightarrow> real list \<Rightarrow>
   error + (real \<times> 'p set) list" where
  "buffers_loop buf roads_m aoi c [] = Inr []"
| "buffers_loop buf roads_m aoi c (d # ds) =
     (case buffer_in_chunks buf roads_m aoi (d * 1000) c of
        Inl e \<Rightarrow> Inl e
      | Inr None \<Rightarrow> buffers_loop buf roads_m aoi c ds     \<comment> \<open>warning, \<open>continue\<close>\<close>
      | Inr (Some union_buf) \<Rightarrow>
          (case buffers_loop buf roads_m aoi c ds of
             Inl e \<Rightarrow> Inl e
           | Inr bs \<Rightarrow> Inr ((d, union_buf) # bs)))"

fun middle_rings :: "real \<Rightarrow> 'p set \<Rightarrow> (real \<times> 'p set) list \<Rightarrow> 'p ring list" where
  "middle_rings prev_d prev_g [] = []"
| "middle_rings prev_d prev_g ((d, g) # bs) =
     \<lparr>ring_id = str_int (py_int prev_d) @ ''-'' @ str_int (py_int d) @ ''km'',
      min_km = prev_d, max_km = Some d, geometry = g - prev_g\<rparr>
     # middle_rings d g bs"

definition build_rings :: "'p set list \<Rightarrow> (real \<times> 'p set) list \<Rightarrow> error + 'p ring list" where
  "build_rings aoi buffers =
     (case buffers of
        [] \<Rightarrow> Inl (SysExit ''Nao foi possivel gerar nenhum buffer. Verifique os dados de estradas.'')
      | (d0, g0) # rest \<Rightarrow>
          let (dmax, gmax) = last buffers;
              outside = \<Union> (set aoi) - gmax
          in Inr (\<lparr>ring_id = ''0-'' @ str_int (py_int d0) @ ''km'',
                    min_km = 0, max_km = Some d0, geometry = g0\<rparr>
                  # middle_rings d0 g0 rest
                  @ [\<lparr>ring_id = ''>'' @ str_int (py_int dmax) @ ''km'',
                       min_km = dmax, max_km = None, geometry = outside\<rparr>]))"

definition ring_builder ::
  "('p set \<Rightarrow> real \<Rightarrow> 'p set) \<Rightarrow> 'p set list \<Rightarrow> 'p set list \<Rightarrow> real list \<Rightarrow> int \<Rightarrow>
   error + 'p ring_output" where
  \<comment> \<open>steps 2 and 3 of \<open>main\<close>\<close>
  "ring_builder buf roads_m aoi dists chunk =
     (let dists_km = sort (remdups dists) in
      case buffers_loop buf roads_m aoi chunk dists_km of
        Inl e \<Rightarrow> Inl e
      | Inr buffers \<Rightarrow>
          (case build_rings aoi buffers of
             Inl e \<Rightarrow> Inl e
           | Inr rs \<Rightarrow>
               Inr \<lparr>buffer_files = map (\<lambda>(d, g). (buffer_file_name d, d, g)) buffers,
                    rings = rs\<rparr>))"

definition main03 ::
  "('p set \<Rightarrow> real \<Rightarrow> 'p set) \<Rightarrow> 'p set list option \<Rightarrow> 'p roads option \<Rightarrow> ring_args \<Rightarrow>
   error + 'p ring_output" where
  \<comment> \<open>the two files are \<open>None\<close> when their path does not exist\<close>
  "main03 buf aoi_file roads_file args =
     (case aoi_file of
        None \<Rightarrow> Inl (SysExit ''AOI nao encontrado'')
      | Some aoi \<Rightarrow>
     (case roads_file of
        None \<Rightarrow> Inl (SysExit ''Estradas nao encontrado'')
      | Some roads0 \<Rightarrow>
          let filtering = (case road_classes args of None \<Rightarrow> False | Some ks \<Rightarrow> ks \<noteq> []);
              roads = (if filtering then filter_by_fclass roads0 (the (road_classes args))
                       else roads0)
          in if filtering \<and> segments roads = []
             then Inl (SysExit ''Filtro por fclass resultou em zero estradas.'')
             else ring_builder buf (map snd (segments roads)) aoi (dist_arg args) (chunk_size args)))"

subsection \<open>Reference definitions for the ring builder\<close>

definition buffer_union_clip ::
  "('p set \<Rightarrow> real \<Rightarrow> 'p set) \<Rightarrow> 'p set list \<Rightarrow> 'p set list \<Rightarrow> real \<Rightarrow> 'p set option" where
  \<comment> \<open>the non-chunked computation the chunked one is compared with: buffer every segment,
      union all of them, clip once by the AOI, with the conventions of \<open>buffer_in_chunks\<close>
      (an empty clip is \<open>None\<close>)\<close>
  "buffer_union_clip buf roads_m aoi_m d_m =
     (let buf_geoms = map (\<lambda>g. buf g d_m) roads_m;
          total_union = \<Union> (set buf_geoms);
          clip = overlay_intersection [total_union] aoi_m
      in if clip = [] then None else Some (hd clip))"

definition clipped_union ::
  "('p set \<Rightarrow> real \<Rightarrow> 'p set) \<Rightarrow> 'p set list \<Rightarrow> 'p set \<Rightarrow> real \<Rightarrow> 'p set" where
  "clipped_union buf roads_m A d_m = (\<Union>g\<in>set roads_m. buf g d_m) \<inter> A"

definition ring_label :: "real \<Rightarrow> real option \<Rightarrow> string" where
  \<comment> \<open>the label as a function of the two bounds of a ring\<close>
  "ring_label lo hi =
     (case hi of
        Some h \<Rightarrow> str_int (py_int lo) @ ''-'' @ str_int (py_int h) @ ''km''
      | None \<Rightarrow> ''>'' @ str_int (py_int lo) @ ''km'')"

definition toy_buffer :: "int set \<Rightarrow> real \<Rightarrow> int set" where
  \<comment> \<open>a concrete buffer on the points \<open>0, 1, 2, \<dots>\<close> of a line, one point per 10 km,
      used for the examples\<close>
  "toy_buffer g d =
     (if d < 5000 then {}
      else if d < 10000 then g
      else if d < 20000 then g \<union> (\<lambda>p. p + 1) ` g
      else g \<union> (\<lambda>p. p + 1) ` g \<union> (\<lambda>p. p + 2) ` g)"

definition buffer_nonempty ::
  "('p set \<Rightarrow> real \<Rightarrow> 'p set) \<Rightarrow> 'p set list \<Rightarrow> 'p set list \<Rightarrow> int \<Rightarrow> real \<Rightarrow> bool" where
  \<comment> \<open>the test \<open>union_buf is None\<close> of the distance loop, negated\<close>
  "buffer_nonempty buf roads_m aoi c d =
     (case buffer_in_chunks buf roads_m aoi (d * 1000) c of
        Inr (Some g) \<Rightarrow> True | _ \<Rightarrow> False)"

section \<open>Overlay engine (scripts/04\_intersection.py, scripts/05\_precompute\_intersections.py)\<close>

text \<open>
  The deforestation layer is a table: the names of its attribute columns and, for every
  feature, one cell per column and the geometry. Cells are numbers (the year arrives as a
  float or an integer, is never null here and stays within the 64-bit integers; no column
  of the deforestation layer is named \<open>ring_id\<close>). The ring layer is read with the columns
  \<open>ring_id\<close> and \<open>geometry\<close> only. An input file is \<open>None\<close> when its path does not exist; a
  file that exists is read without error. The column sum of pandas and the \<open>SUM\<close> of DuckDB
  add float64 numbers; this library sum is the parameter \<open>fsum\<close> of the aggregates, and
  \<open>sum64\<close> below is the float64 sum taken in row order.
\<close>

record 'p prodes =
  columns :: "string list"
  features :: "(real list \<times> 'p set) list"

type_synonym 'p ring_rows = "(string \<times> 'p set) list"

record 'p inter_row =
  ir_ring_id :: string
  ir_year :: int
  ir_area_ha :: real
  ir_geometry :: "'p set"

record 'p overlay_output =
  parquet_columns :: "string list"                     \<comment> \<open>\<open>inter_prodes_rings.parquet\<close>\<close>
  parquet_rows :: "'p inter_row list"
  by_ring_year_columns :: "string list"                \<comment> \<open>\<open>by_ring_year.csv\<close>\<close>
  by_ring_year_rows :: "(string \<times> int \<times> real) list"
  by_ring_columns :: "string list"                     \<comment> \<open>\<open>by_ring_total.csv\<close>\<close>
  by_ring_rows :: "(string \<times> real) list"

fun find_year_col :: "string list \<Rightarrow> string option" where
  "find_year_col [] = None"
| "find_year_col (c # cs) = (if lower c = ''year'' then Some c else find_year_col cs)"

definition cell :: "string list \<Rightarrow> string \<Rightarrow> real list \<Rightarrow> real" where
  \<comment> \<open>the cell of a row under the (first) column of that name\<close>
  "cell cols c vals = (case map_of (zip cols vals) c of Some v \<Rightarrow> v | None \<Rightarrow> 0)"

definition np_round :: "real \<Rightarrow> int" where
  \<comment> \<open>\<open>.astype(float).round().astype(int)\<close>: rounding to the nearest integer, ties to even\<close>
  "np_round x =
     (let f = \<lfloor>x\<rfloor>; r = x - of_int f
      in if r < 1 / 2 then f else if 1 / 2 < r then f + 1 else if even f then f else f + 1)"

definition clip :: "('a \<times> 'p set) list \<Rightarrow> 'p set \<Rightarrow> ('a \<times> 'p set) list" where
  \<comment> \<open>\<open>gpd.clip(gdf, mask)\<close>: the rows that meet the mask, cut to it; rows are kept in their
      input order, and a geometry is its point set, so that no line or point is left over\<close>
  "clip rows msk = map (\<lambda>(a, g). (a, g \<inter> msk)) (filter (\<lambda>(a, g). g \<inter> msk \<noteq> {}) rows)"

definition overlay_rings ::
  "('a \<times> 'p set) list \<Rightarrow> 'p ring_rows \<Rightarrow> ('a \<times> string \<times> 'p set) list" where
  \<comment> \<open>\<open>gpd.overlay(prodes, rings, how="intersection")\<close>: one row for each feature and each
      ring it meets, with the cells of the feature, the \<open>ring_id\<close> and the common part\<close>
  "overlay_rings rows rings_gdf =
     concat (map (\<lambda>(a, g). map (\<lambda>(rid, rg). (a, rid, g \<inter> rg))
                               (filter (\<lambda>(rid, rg). g \<inter> rg \<noteq> {}) rings_gdf)) rows)"

definition inter_rows ::
  "('p set \<Rightarrow> real) \<Rightarrow> string list \<Rightarrow> string \<Rightarrow> (real list \<times> string \<times> 'p set) list \<Rightarrow>
   'p inter_row list" where
  \<comment> \<open>area in hectares, year as an integer, the four kept columns\<close>
  "inter_rows area cols year_col inter_gdf =
     map (\<lambda>(vals, rid, g).
            \<lparr>ir_ring_id = rid, ir_year = np_round (cell cols year_col vals),
             ir_area_ha = area g / 10000, ir_geometry = g\<rparr>) inter_gdf"

subsection \<open>Float64 sums\<close>

function bin_exponent :: "real \<Rightarrow> int" where
  \<comment> \<open>the binary exponent \<open>e\<close> of a positive number: \<open>2^e \<le> x < 2^(e+1)\<close>\<close>
  "bin_exponent x =
     (if x \<le> 0 then 0
      else if 2 \<le> x then bin_exponent (x / 2) + 1
      else if x < 1 then bin_exponent (2 * x) - 1
      else 0)"
  by pat_completeness auto
termination
proof (relation "measure (\<lambda>x. nat \<bar>\<lfloor>log 2 x\<rfloor>\<bar>)")
  show "wf (measure (\<lambda>x. nat \<bar>\<lfloor>log 2 x\<rfloor>\<bar>))" by simp
next
  fix x :: real
  assume a: "\<not> x \<le> 0" "2 \<le> x"
  have "log 2 (x / 2) = log 2 x - 1" using a by (simp add: log_divide)
  then have h: "\<lfloor>log 2 (x / 2)\<rfloor> = \<lfloor>log 2 x\<rfloor> - 1" by simp
  have "1 \<le> log 2 x" using a by (simp add: le_log_iff)
  then have "1 \<le> \<lfloor>log 2 x\<rfloor>" by linarith
  then show "(x / 2, x) \<in> measure (\<lambda>x. nat \<bar>\<lfloor>log 2 x\<rfloor>\<bar>)"
    using h by simp
next
  fix x :: real
  assume a: "\<not> x \<le> 0" "\<not> 2 \<le> x" "x < 1"
  have "log 2 (2 * x) = log 2 x + 1" using a by (simp add: log_mult)
  then have h: "\<lfloor>log 2 (2 * x)\<rfloor> = \<lfloor>log 2 x\<rfloor> + 1" by simp
  have "log 2 x < 0" using a by simp
  then have "\<lfloor>log 2 x\<rfloor> \<le> -1" by linarith
  then show "(2 * x, x) \<in> measure (\<lambda>x. nat \<bar>\<lfloor>log 2 x\<rfloor>\<bar>)"
    using h by simp
qed

declare bin_exponent.simps [simp del]

definition fl64 :: "real \<Rightarrow> real" where
  \<comment> \<open>the float64 nearest to a real, ties to even: 53 significant bits; the exponent is
      not bounded (no overflow, no subnormal numbers)\<close>
  "fl64 x = (let ulp = 2 powi (bin_exponent \<bar>x\<bar> - 52) in of_int (np_round (x / ulp)) * ulp)"

definition sum64 :: "real list \<Rightarrow> real" where
  \<comment> \<open>the float64 sum of a column taken in row order, every addition rounded\<close>
  "sum64 xs = foldl (\<lambda>s x. fl64 (s + x)) 0 xs"


definition by_ring_year_tab ::
  "(real list \<Rightarrow> real) \<Rightarrow> 'p inter_row list \<Rightarrow> (string \<times> int \<times> real) list" where
  \<comment> \<open>\<open>groupby(["ring_id", year_col])["area_ha"].sum().reset_index()
      .sort_values([year_col, "ring_id"])\<close>\<close>
  "by_ring_year_tab fsum inter_gdf =
     (let keys = sort (remdups (map (\<lambda>r. (ir_ring_id r, ir_year r)) inter_gdf));
          grouped = map (\<lambda>(k, y). (k, y, fsum (map ir_area_ha
                           (filter (\<lambda>r. ir_ring_id r = k \<and> ir_year r = y) inter_gdf)))) keys
      in sort_key (\<lambda>(k, y, a). (y, k)) grouped)"

definition by_ring_tab :: "(real list \<Rightarrow> real) \<Rightarrow> 'p inter_row list \<Rightarrow> (string \<times> real) list" where
  \<comment> \<open>\<open>groupby(["ring_id"])["area_ha"].sum().reset_index()
      .sort_values("area_ha", ascending=False)\<close>; rows of equal area stay in key order\<close>
  "by_ring_tab fsum inter_gdf =
     (let keys = sort (remdups (map ir_ring_id inter_gdf));
          grouped = map (\<lambda>k. (k, fsum (map ir_area_ha
                           (filter (\<lambda>r. ir_ring_id r = k) inter_gdf)))) keys
      in sort_key (\<lambda>(k, a). - a) grouped)"

definition save_outputs ::
  "(real list \<Rightarrow> real) \<Rightarrow> string \<Rightarrow> 'p inter_row list \<Rightarrow> 'p overlay_output" where
  "save_outputs fsum year_col inter_gdf =
     \<lparr>parquet_columns = [''ring_id'', year_col, ''area_ha'', ''geometry''],
      parquet_rows = inter_gdf,
      by_ring_year_columns = [''ring_id'', ''year'', ''area_ha''],
      by_ring_year_rows = by_ring_year_tab fsum inter_gdf,
      by_ring_columns = [''ring_id'', ''area_ha''],
      by_ring_rows = by_ring_tab fsum inter_gdf\<rparr>"

definition empty_outputs :: "string \<Rightarrow> 'p overlay_output" where
  \<comment> \<open>the three files written when the intersection is empty\<close>
  "empty_outputs year_col =
     \<lparr>parquet_columns = [''ring_id'', year_col, ''area_ha'', ''geometry''],
      parquet_rows = [],
      by_ring_year_columns = [''ring_id'', ''year'', ''area_ha''],
      by_ring_year_rows = [],
      by_ring_columns = [''ring_id'', ''area_ha''],
      by_ring_rows = []\<rparr>"

subsection \<open>04\_intersection.py\<close>

definition module_globals04 :: "string list" where
  \<comment> \<open>the names bound at module level: the imports, the constants and the functions\<close>
  "module_globals04 =
     [''Path'', ''sys'', ''argparse'', ''gpd'', ''pd'',
      ''PROJ'', ''DATA_PROC'', ''RINGS_PATH'', ''PRODES_PATH'', ''OUT_DIR'', ''OUT_PARQUET'',
      ''OUT_BY_RING_YEAR'', ''OUT_BY_RING'', ''EQUAL_AREA'', ''WGS84'',
      ''info'', ''warn'', ''err'', ''load_gdf'', ''find_year_col'', ''parse_args'', ''main'']"

definition lookup_global :: "string list \<Rightarrow> string \<Rightarrow> error + string" where
  \<comment> \<open>reading a global name inside a function; none of the names looked up is a builtin\<close>
  "lookup_global names n = (if n \<in> set names then Inr n else Inl (NameError n))"

definition clip_per_ring ::
  "(real list \<times> 'p set) list \<Rightarrow> 'p ring_rows \<Rightarrow> (real list \<times> string \<times> 'p set) list list" where
  \<comment> \<open>the fallback loop: \<open>parts\<close>, one non-empty clipped table per ring\<close>
  "clip_per_ring prodes rings_keep =
     filter (\<lambda>sub. sub \<noteq> [])
       (map (\<lambda>(rid, rg). map (\<lambda>(vals, g). (vals, rid, g)) (clip prodes rg)) rings_keep)"

definition overlay_stage04 ::
  "(real list \<Rightarrow> real) \<Rightarrow> ('p set \<Rightarrow> real) \<Rightarrow> string option \<Rightarrow> string list \<Rightarrow> string \<Rightarrow>
   (real list \<times> 'p set) list \<Rightarrow> 'p ring_rows \<Rightarrow> error + 'p overlay_output" where
  \<comment> \<open>steps 4 to 7 of \<open>main\<close>; \<open>overlay_exn\<close> is the exception \<open>gpd.overlay\<close> raises in this
      run, if it raises one\<close>
  "overlay_stage04 fsum area overlay_exn cols year_col prodes rings_keep =
     (case (case overlay_exn of
              None \<Rightarrow> Inr (overlay_rings prodes rings_keep)
            | Some e \<Rightarrow>
                let parts = clip_per_ring prodes rings_keep
                in if parts = [] then Inl (SysExit ''Intersecao resultou vazia.'')
                   else Inr (concat parts)) of
        Inl e \<Rightarrow> Inl e
      | Inr inter_gdf \<Rightarrow>
          if inter_gdf = [] then Inr (empty_outputs year_col)
          else Inr (save_outputs fsum year_col (inter_rows area cols year_col inter_gdf)))"

definition main04 ::
  "(real list \<Rightarrow> real) \<Rightarrow> ('p set \<Rightarrow> 'p set) \<Rightarrow> ('p set \<Rightarrow> real) \<Rightarrow> string option \<Rightarrow>
   'p ring_rows option \<Rightarrow> 'p prodes option \<Rightarrow> error + 'p overlay_output" where
  "main04 fsum envelope area overlay_exn rings_file prodes_file =
     (case rings_file of
        None \<Rightarrow> Inl (SysExit ''Aneis nao encontrado'')
      | Some rings_gdf \<Rightarrow>
     (case prodes_file of
        None \<Rightarrow> Inl (SysExit ''PRODES nao encontrado'')
      | Some prodes \<Rightarrow>
     (case find_year_col (columns prodes) of
        None \<Rightarrow> Inl (SysExit ''Coluna year nao encontrada no PRODES.'')
      | Some year_col \<Rightarrow>
     (case lookup_global module_globals04 ''unary_union'' of
        Inl e \<Rightarrow> Inl e
      | Inr _ \<Rightarrow>
          let bbox = envelope (\<Union> (set (map snd rings_gdf)));
              clipped = clip (features prodes) bbox
          in overlay_stage04 fsum area overlay_exn (columns prodes) year_col clipped rings_gdf))))"

definition main04_no_preclip ::
  "(real list \<Rightarrow> real) \<Rightarrow> ('p set \<Rightarrow> real) \<Rightarrow> string option \<Rightarrow>
   'p ring_rows option \<Rightarrow> 'p prodes option \<Rightarrow> error + 'p overlay_output" where
  \<comment> \<open>\<open>main\<close> with step 3, the bounding-box clip, left out\<close>
  "main04_no_preclip fsum area overlay_exn rings_file prodes_file =
     (case rings_file of
        None \<Rightarrow> Inl (SysExit ''Aneis nao encontrado'')
      | Some rings_gdf \<Rightarrow>
     (case prodes_file of
        None \<Rightarrow> Inl (SysExit ''PRODES nao encontrado'')
      | Some prodes \<Rightarrow>
     (case find_year_col (columns prodes) of
        None \<Rightarrow> Inl (SysExit ''Coluna year nao encontrada no PRODES.'')
      | Some year_col \<Rightarrow>
          overlay_stage04 fsum area overlay_exn (columns prodes) year_col (features prodes) rings_gdf)))"

subsection \<open>05\_precompute\_intersections.py\<close>

definition fix_geoms :: "('p set \<Rightarrow> 'p set list) \<Rightarrow> ('a \<times> 'p set) list \<Rightarrow> ('a \<times> 'p set) list" where
  \<comment> \<open>\<open>_fix_geoms\<close>: every row is replaced by one row for each simple polygon of its repaired
      geometry; \<open>polys\<close> (\<open>make_valid\<close>, \<open>explode\<close>, the polygon filter) is a parameter\<close>
  "fix_geoms polys rows = concat (map (\<lambda>(a, g). map (\<lambda>p. (a, p)) (polys g)) rows)"

definition precompute05 ::
  "(real list \<Rightarrow> real) \<Rightarrow> ('p set \<Rightarrow> 'p set list) \<Rightarrow> ('p set \<Rightarrow> 'p set) \<Rightarrow> ('p set \<Rightarrow> real) \<Rightarrow>
   'p ring_rows option \<Rightarrow> 'p prodes option \<Rightarrow> error + 'p overlay_output" where
  "precompute05 fsum polys envelope area rings_file prodes_file =
     (case rings_file of
        None \<Rightarrow> Inl (DataSourceError ''buffer_rings.shp'')
      | Some rings0 \<Rightarrow>
     (case prodes_file of
        None \<Rightarrow> Inl (DataSourceError ''deforestation_rr.shp'')
      | Some prodes0 \<Rightarrow>
          let rings_gdf = fix_geoms polys rings0;
              prodes = fix_geoms polys (features prodes0);
              bbox = envelope (\<Union> (set (map snd rings_gdf)));
              clipped = clip prodes bbox;
              inter_gdf = overlay_rings clipped rings_gdf
          in if inter_gdf = [] then Inr (empty_outputs ''year'')
             else
               (case find_year_col (columns prodes0 @ [''ring_id'', ''geometry'']) of
                  None \<Rightarrow> Inl (RuntimeError ''Coluna year nao encontrada no PRODES recortado.'')
                | Some year_col \<Rightarrow>
                    Inr (save_outputs fsum year_col
                           (inter_rows area (columns prodes0) year_col inter_gdf)))))"

definition precompute05_no_preclip ::
  "(real list \<Rightarrow> real) \<Rightarrow> ('p set \<Rightarrow> 'p set list) \<Rightarrow> ('p set \<Rightarrow> real) \<Rightarrow>
   'p ring_rows option \<Rightarrow> 'p prodes option \<Rightarrow> error + 'p overlay_output" where
  \<comment> \<open>the same script with the two lines of the bounding-box clip left out\<close>
  "precompute05_no_preclip fsum polys area rings_file prodes_file =
     (case rings_file of
        None \<Rightarrow> Inl (DataSourceError ''buffer_rings.shp'')
      | Some rings0 \<Rightarrow>
     (case prodes_file of
        None \<Rightarrow> Inl (DataSourceError ''deforestation_rr.shp'')
      | Some prodes0 \<Rightarrow>
          let rings_gdf = fix_geoms polys rings0;
              prodes = fix_geoms polys (features prodes0);
              inter_gdf = overlay_rings prodes rings_gdf
          in if inter_gdf = [] then Inr (empty_outputs ''year'')
             else
               (case find_year_col (columns prodes0 @ [''ring_id'', ''geometry'']) of
                  None \<Rightarrow> Inl (RuntimeError ''Coluna year nao encontrada no PRODES recortado.'')
                | Some year_col \<Rightarrow>
                    Inr (save_outputs fsum year_col
                           (inter_rows area (columns prodes0) year_col inter_gdf)))))"

subsection \<open>06\_build\_duckdb.py\<close>



subsection \<open>Reference definitions for the aggregates\<close>


subsection \<open>Example data\<close>

definition ex_rings :: "int ring_rows" where
  "ex_rings = [(''0-5km'', {0, 1}), (''5-10km'', {2, 3}), (''>10km'', {4, 5})]"

definition ex_prodes :: "int prodes" where
  "ex_prodes = \<lparr>columns = [''class'', ''YEAR''],
                features = [([1, 2020], {1, 2}), ([1, 2021], {3}), ([2, 2020], {0}), ([2, 2019], {8})]\<rparr>"

definition ex_prodes_far :: "int prodes" where
  \<comment> \<open>a year column, and one polygon that meets no ring\<close>
  "ex_prodes_far = \<lparr>columns = [''year''], features = [([2020], {8})]\<rparr>"

definition ex_prodes_no_year :: "int prodes" where
  "ex_prodes_no_year = \<lparr>columns = [''class''], features = [([1], {8})]\<rparr>"

definition ex_inter :: "int inter_row list" where
  "ex_inter =
     [\<lparr>ir_ring_id = ''0-5km'', ir_year = 2020, ir_area_ha = 1, ir_geometry = {1}\<rparr>,
      \<lparr>ir_ring_id = ''5-10km'', ir_year = 2020, ir_area_ha = 1, ir_geometry = {2}\<rparr>,
      \<lparr>ir_ring_id = ''5-10km'', ir_year = 2021, ir_area_ha = 1, ir_geometry = {3}\<rparr>,
      \<lparr>ir_ring_id = ''0-5km'', ir_year = 2020, ir_area_ha = 1, ir_geometry = {0}\<rparr>]"


definition toy_envelope :: "int set \<Rightarrow> int set" where
  \<comment> \<open>on the points of a line, the bounding box of a set taken in \<open>0..9\<close>\<close>
  "toy_envelope g = (if g = {} then {} else {0, 1, 2, 3, 4, 5, 6, 7, 8, 9})"

definition toy_area :: "int set \<Rightarrow> real" where
  "toy_area g = 10000 * real (card g)"

definition toy_polys :: "int set \<Rightarrow> int set list" where
  "toy_polys g = (if g = {} then [] else [g])"

section \<open>Properties of the ring builder\<close>

lemma overlay_single:
  "overlay_intersection [L] [A] = (if L \<inter> A \<noteq> {} then [L \<inter> A] else [])"
  by (simp add: overlay_intersection_def)

lemma drop_chunk_union:
  "(\<Union>g\<in>set (drop i xs). f g) =
   (\<Union>g\<in>set (take (min (i + c) (length xs) - i) (drop i xs)). f g) \<union> (\<Union>g\<in>set (drop (i + c) xs). f g)"
proof -
  have "drop i xs = take c (drop i xs) @ drop c (drop i xs)"
    by (rule append_take_drop_id[symmetric])
  moreover have "take (min (i + c) (length xs) - i) (drop i xs) = take c (drop i xs)"
    by (cases "i + c \<le> length xs") (simp_all add: min_def)
  moreover have "drop c (drop i xs) = drop (i + c) xs" by (simp add: add.commute)
  ultimately show ?thesis
    by (metis UN_Un set_append)
qed

lemma chunk_loop_union:
  "0 < c \<Longrightarrow>
   \<Union> (set (chunk_loop buf roads [A] d c i parts)) =
   \<Union> (set parts) \<union> ((\<Union>g\<in>set (drop i roads). buf g d) \<inter> A)"
proof (induction buf roads "[A]" d c i parts rule: chunk_loop.induct)
  case (1 buf roads_m d_m c i parts)
  show ?case
  proof (cases "length roads_m \<le> i")
    case True
    then show ?thesis using 1(2) by (simp add: chunk_loop.simps)
  next
    case False
    let ?L = "\<Union> (set (map (\<lambda>g. buf g d_m) (take (min (i + c) (length roads_m) - i) (drop i roads_m))))"
    let ?parts = "if overlay_intersection [?L] [A] \<noteq> [] then parts @ [hd (overlay_intersection [?L] [A])] else parts"
    have step: "chunk_loop buf roads_m [A] d_m c i parts = chunk_loop buf roads_m [A] d_m c (i + c) ?parts"
      using False 1(2) by (subst chunk_loop.simps) (simp add: Let_def)
    have ih: "\<Union> (set (chunk_loop buf roads_m [A] d_m c (i + c) ?parts)) =
       \<Union> (set ?parts) \<union> ((\<Union>g\<in>set (drop (i + c) roads_m). buf g d_m) \<inter> A)"
      using 1(1)[OF _ refl refl refl refl 1(2)] False 1(2) by simp
    have parts: "\<Union> (set ?parts) = \<Union> (set parts) \<union> (?L \<inter> A)"
      by (auto simp: overlay_single)
    show ?thesis
      unfolding step ih parts
      by (subst (2) drop_chunk_union[where c = c]) auto
  qed
qed

lemma chunk_loop_nonempty:
  "{} \<notin> set parts \<Longrightarrow> {} \<notin> set (chunk_loop buf roads [A] d c i parts)"
proof (induction buf roads "[A]" d c i parts rule: chunk_loop.induct)
  case (1 buf roads_m d_m c i parts)
  show ?case
  proof (cases "c = 0 \<or> length roads_m \<le> i")
    case True
    then show ?thesis using 1(2) by (simp add: chunk_loop.simps)
  next
    case False
    let ?L = "\<Union> (set (map (\<lambda>g. buf g d_m) (take (min (i + c) (length roads_m) - i) (drop i roads_m))))"
    let ?parts = "if overlay_intersection [?L] [A] \<noteq> [] then parts @ [hd (overlay_intersection [?L] [A])] else parts"
    have step: "chunk_loop buf roads_m [A] d_m c i parts = chunk_loop buf roads_m [A] d_m c (i + c) ?parts"
      using False by (subst chunk_loop.simps) (simp add: Let_def)
    have "{} \<notin> set ?parts" using 1(2) by (auto simp: overlay_single)
    then show ?thesis
      unfolding step using 1(1)[OF False refl refl refl refl] by simp
  qed
qed

lemma buffer_in_chunks_eq:
  assumes "1 \<le> c"
  shows "buffer_in_chunks buf roads [A] d c = Inr (buffer_union_clip buf roads [A] d)"
proof -
  let ?U = "(\<Union>g\<in>set roads. buf g d) \<inter> A"
  let ?parts = "chunk_loop buf roads [A] d (nat c) 0 []"
  have u: "\<Union> (set ?parts) = ?U"
    using chunk_loop_union[of "nat c" buf roads A d 0 "[]"] assms by simp
  have ne: "{} \<notin> set ?parts" by (rule chunk_loop_nonempty) simp
  have "?parts = [] \<longleftrightarrow> ?U = {}"
  proof
    assume "?parts = []" with u show "?U = {}" by simp
  next
    assume e: "?U = {}"
    show "?parts = []"
    proof (rule ccontr)
      assume "?parts \<noteq> []"
      then obtain x where x: "x \<in> set ?parts" by (cases ?parts) auto
      with ne have "x \<noteq> {}" by auto
      with x have "\<Union> (set ?parts) \<noteq> {}" by blast
      with u e show False by simp
    qed
  qed
  then show ?thesis
    using assms u by (auto simp: buffer_in_chunks_def buffer_union_clip_def overlay_single Let_def)
qed


lemma buffer_union_clip_single:
  "buffer_union_clip buf roads [A] d =
     (if clipped_union buf roads A d = {} then None else Some (clipped_union buf roads A d))"
  by (simp add: buffer_union_clip_def clipped_union_def overlay_single Let_def)

lemma buffers_loop_single:
  "1 \<le> c \<Longrightarrow>
   buffers_loop buf roads [A] c ds =
     Inr (map (\<lambda>d. (d, clipped_union buf roads A (d * 1000)))
            (filter (\<lambda>d. clipped_union buf roads A (d * 1000) \<noteq> {}) ds))"
  by (induction ds) (simp_all add: buffer_in_chunks_eq buffer_union_clip_single)

lemma buffers_loop_nonpos:
  "c < 0 \<Longrightarrow> buffers_loop buf roads aoi c ds = Inr []"
  by (induction ds) (simp_all add: buffer_in_chunks_def)

lemma buffers_loop_zero:
  "ds \<noteq> [] \<Longrightarrow> \<exists>e. buffers_loop buf roads aoi 0 ds = Inl e"
  by (cases ds) (simp_all add: buffer_in_chunks_def)

lemma clipped_union_mono:
  "\<forall>g d d'. d \<le> d' \<longrightarrow> buf g d \<subseteq> buf g d' \<Longrightarrow> d \<le> d' \<Longrightarrow>
   clipped_union buf roads A d \<subseteq> clipped_union buf roads A d'"
  unfolding clipped_union_def by blast

lemma buffers_chain:
  assumes "\<forall>g d d'. d \<le> d' \<longrightarrow> buf g d \<subseteq> buf g d'" "sorted ds"
  shows "sorted_wrt (\<lambda>a b. snd a \<subseteq> snd b)
           (map (\<lambda>d. (d, clipped_union buf roads A (d * 1000))) (filter P ds))"
proof -
  have "sorted (filter P ds)" using assms(2) by (rule sorted_wrt_filter)
  then have "sorted_wrt (\<lambda>d d'. clipped_union buf roads A (d * 1000) \<subseteq> clipped_union buf roads A (d' * 1000)) (filter P ds)"
  proof (rule sorted_wrt_mono_rel[rotated])
    fix x y :: real
    assume "x \<le> y"
    then have "x * 1000 \<le> y * 1000" by simp
    then show "clipped_union buf roads A (x * 1000) \<subseteq> clipped_union buf roads A (y * 1000)"
      by (rule clipped_union_mono[OF assms(1)])
  qed
  then show ?thesis by (simp add: sorted_wrt_map)
qed

lemma chain_head_last:
  "sorted_wrt (\<lambda>a b. snd a \<subseteq> snd b) (x # xs) \<Longrightarrow> snd x \<subseteq> snd (last (x # xs))"
proof (cases "xs = []")
  case True
  then show ?thesis by simp
next
  case False
  assume "sorted_wrt (\<lambda>a b. snd a \<subseteq> snd b) (x # xs)"
  then have "\<forall>y\<in>set xs. snd x \<subseteq> snd y" by simp
  moreover have "last xs \<in> set xs" using False by (rule last_in_set)
  ultimately show ?thesis using False by simp
qed

lemma middle_rings_geoms:
  "sorted_wrt (\<lambda>a b. snd a \<subseteq> snd b) ((pd, pg) # bs) \<Longrightarrow>
   (\<forall>r\<in>set (middle_rings pd pg bs).
       geometry r \<inter> pg = {} \<and> geometry r \<subseteq> snd (last ((pd, pg) # bs))) \<and>
   \<Union> (geometry ` set (middle_rings pd pg bs)) = snd (last ((pd, pg) # bs)) - pg \<and>
   sorted_wrt (\<lambda>a b. geometry a \<inter> geometry b = {}) (middle_rings pd pg bs)"
proof (induction bs arbitrary: pd pg)
  case Nil
  then show ?case by simp
next
  case (Cons b bs)
  obtain d g where b: "b = (d, g)" by (cases b)
  have chain: "sorted_wrt (\<lambda>a b. snd a \<subseteq> snd b) ((d, g) # bs)"
    using Cons.prems b by simp
  have pg: "pg \<subseteq> g" using Cons.prems b by simp
  have glast: "g \<subseteq> snd (last ((d, g) # bs))"
    using chain_head_last[OF chain] by simp
  note ih = Cons.IH[OF chain]
  have 1: "\<forall>r\<in>set (middle_rings pd pg (b # bs)).
       geometry r \<inter> pg = {} \<and> geometry r \<subseteq> snd (last ((pd, pg) # b # bs))"
    using ih pg glast b by auto
  have 2: "\<Union> (geometry ` set (middle_rings pd pg (b # bs))) = snd (last ((pd, pg) # b # bs)) - pg"
    using ih pg glast b by auto
  have 3: "sorted_wrt (\<lambda>a b. geometry a \<inter> geometry b = {}) (middle_rings pd pg (b # bs))"
    using ih b by auto
  from 1 2 3 show ?case by blast
qed

lemma build_rings_partition:
  assumes chain: "sorted_wrt (\<lambda>a b. snd a \<subseteq> snd b) bs"
      and sub: "\<forall>b\<in>set bs. snd b \<subseteq> A"
      and res: "build_rings [A] bs = Inr rs"
  shows "\<Union> (geometry ` set rs) = A"
    and "sorted_wrt (\<lambda>a b. geometry a \<inter> geometry b = {}) rs"
proof -
  from res obtain d0 g0 rest where bs: "bs = (d0, g0) # rest"
    by (cases bs) (auto simp: build_rings_def)
  obtain dmax gmax where l: "last bs = (dmax, gmax)" by (cases "last bs")
  let ?first = "\<lparr>ring_id = ''0-'' @ str_int (py_int d0) @ ''km'',
                    min_km = 0, max_km = Some d0, geometry = g0\<rparr>"
  let ?last = "\<lparr>ring_id = ''>'' @ str_int (py_int dmax) @ ''km'',
                       min_km = dmax, max_km = None, geometry = A - gmax\<rparr>"
  have rs: "rs = ?first # middle_rings d0 g0 rest @ [?last]"
    using res l unfolding bs build_rings_def by simp
  have m: "(\<forall>r\<in>set (middle_rings d0 g0 rest). geometry r \<inter> g0 = {} \<and> geometry r \<subseteq> gmax)"
     "\<Union> (geometry ` set (middle_rings d0 g0 rest)) = gmax - g0"
     "sorted_wrt (\<lambda>a b. geometry a \<inter> geometry b = {}) (middle_rings d0 g0 rest)"
    using middle_rings_geoms[OF chain[unfolded bs]] l bs by auto
  have g0: "g0 \<subseteq> gmax"
    using chain_head_last[OF chain[unfolded bs]] l bs by simp
  have gmax: "gmax \<subseteq> A"
    using sub l bs by (metis last_in_set list.discI snd_conv)
  show "\<Union> (geometry ` set rs) = A"
    unfolding rs using m(2) g0 gmax by auto
  show "sorted_wrt (\<lambda>a b. geometry a \<inter> geometry b = {}) rs"
    unfolding rs using m(1) m(3) g0 by (auto simp: sorted_wrt_append)
qed


lemma toy_buffer_mono: "\<forall>g d d'. d \<le> d' \<longrightarrow> toy_buffer g d \<subseteq> toy_buffer g d'"
  by (auto simp: toy_buffer_def)

lemma ring_builder_single:
  assumes "1 \<le> c"
  shows "ring_builder buf roads [A] dists c =
     (let bs = map (\<lambda>d. (d, clipped_union buf roads A (d * 1000)))
                 (filter (\<lambda>d. clipped_union buf roads A (d * 1000) \<noteq> {}) (sort (remdups dists)))
      in case build_rings [A] bs of
           Inl e \<Rightarrow> Inl e
         | Inr rs \<Rightarrow> Inr \<lparr>buffer_files = map (\<lambda>(d, g). (buffer_file_name d, d, g)) bs, rings = rs\<rparr>)"
  using assms by (simp add: ring_builder_def buffers_loop_single Let_def)

lemma build_rings_total: "bs \<noteq> [] \<Longrightarrow> \<exists>rs. build_rings aoi bs = Inr rs"
proof -
  assume "bs \<noteq> []"
  then obtain b rest where bs: "bs = b # rest" by (cases bs) auto
  obtain d0 g0 where b: "b = (d0, g0)" by (cases b)
  obtain dmax gmax where l: "last (b # rest) = (dmax, gmax)" by (cases "last (b # rest)")
  show ?thesis unfolding bs build_rings_def using l b by simp
qed

text \<open>
  Claim C1. Whenever the buffer grows with the distance and at least one per-distance buffer
  union meets the AOI (in particular when all of them do), the ring builder returns rings
  that partition the AOI: their union is the AOI and any two of them are disjoint.
\<close>
theorem ring_partition:
  assumes mono: "\<forall>g d d'. d \<le> d' \<longrightarrow> buf g d \<subseteq> buf g d'"
      and c: "1 \<le> c"
      and ne: "\<exists>d\<in>set dists. buffer_union_clip buf roads [A] (d * 1000) \<noteq> None"
  shows "\<exists>out. ring_builder buf roads [A] dists c = Inr out \<and>
           \<Union> (geometry ` set (rings out)) = A \<and>
           (\<forall>i j. i < j \<and> j < length (rings out) \<longrightarrow>
                  geometry (rings out ! i) \<inter> geometry (rings out ! j) = {})"
proof -
  let ?ds = "sort (remdups dists)"
  let ?bs = "map (\<lambda>d. (d, clipped_union buf roads A (d * 1000)))
                 (filter (\<lambda>d. clipped_union buf roads A (d * 1000) \<noteq> {}) ?ds)"
  from ne obtain d where d: "d \<in> set dists" "clipped_union buf roads A (d * 1000) \<noteq> {}"
    by (auto simp: buffer_union_clip_single split: if_splits)
  then have "d \<in> set (filter (\<lambda>d. clipped_union buf roads A (d * 1000) \<noteq> {}) ?ds)"
    by simp
  then have "filter (\<lambda>d. clipped_union buf roads A (d * 1000) \<noteq> {}) ?ds \<noteq> []"
    by (metis empty_iff empty_set)
  then have nonempty: "?bs \<noteq> []" by simp
  then obtain rs where rs: "build_rings [A] ?bs = Inr rs"
    using build_rings_total by blast
  have chain: "sorted_wrt (\<lambda>a b. snd a \<subseteq> snd b) ?bs"
    by (rule buffers_chain[OF mono]) simp
  have sub: "\<forall>b\<in>set ?bs. snd b \<subseteq> A" by (auto simp: clipped_union_def)
  have out: "ring_builder buf roads [A] dists c =
      Inr \<lparr>buffer_files = map (\<lambda>(d, g). (buffer_file_name d, d, g)) ?bs, rings = rs\<rparr>"
    using rs by (simp add: ring_builder_single[OF c] Let_def)
  have u: "\<Union> (geometry ` set rs) = A"
    by (rule build_rings_partition(1)[OF chain sub rs])
  have "sorted_wrt (\<lambda>a b. geometry a \<inter> geometry b = {}) rs"
    by (rule build_rings_partition(2)[OF chain sub rs])
  then have p: "\<forall>i j. i < j \<and> j < length rs \<longrightarrow> geometry (rs ! i) \<inter> geometry (rs ! j) = {}"
    by (auto simp: sorted_wrt_iff_nth_less)
  show ?thesis using out u p by simp
qed

lemma toy_clip_5: "buffer_union_clip toy_buffer [{0}] [{0, 1, 2, 3}] (5 * 1000) = Some {0}"
  by (simp add: buffer_union_clip_def overlay_intersection_def toy_buffer_def)

theorem ring_partition_witness:
  "\<exists>out. ring_builder toy_buffer [{0}] [{0, 1, 2, 3}] [5, 10, 20] 1 = Inr out \<and>
           \<Union> (geometry ` set (rings out)) = {0, 1, 2, 3} \<and>
           (\<forall>i j. i < j \<and> j < length (rings out) \<longrightarrow>
                  geometry (rings out ! i) \<inter> geometry (rings out ! j) = {})"
proof -
  have h3: "\<exists>d\<in>set [5, 10, 20]. buffer_union_clip toy_buffer [{0}] [{0, 1, 2, 3}] (d * 1000) \<noteq> None"
    using toy_clip_5 by simp
  have h2: "(1::int) \<le> 1" by simp
  show ?thesis
    by (rule ring_partition[OF toy_buffer_mono h2 h3])
qed

text \<open>
  Claim C6. For every chunk size of at least 1 the chunked buffer equals the single
  non-chunked buffer-union-clip, so any two such chunk sizes give the same buffer and the
  same ring-builder output.
\<close>
theorem chunking_equivalence:
  assumes "1 \<le> c" and "1 \<le> c'"
  shows "buffer_in_chunks buf roads [A] d c = Inr (buffer_union_clip buf roads [A] d) \<and>
         buffer_in_chunks buf roads [A] d c = buffer_in_chunks buf roads [A] d c' \<and>
         ring_builder buf roads [A] dists c = ring_builder buf roads [A] dists c'"
  using assms by (simp add: buffer_in_chunks_eq ring_builder_single)

theorem chunking_equivalence_witness:
  "(1::int) \<le> 1 \<and> (1::int) \<le> 2 \<and>
   buffer_in_chunks toy_buffer [{0}, {2}] [{0, 1, 2, 3}] 10000 1 = Inr (Some {0, 1, 2, 3}) \<and>
   buffer_in_chunks toy_buffer [{0}, {2}] [{0, 1, 2, 3}] 10000 1 =
     buffer_in_chunks toy_buffer [{0}, {2}] [{0, 1, 2, 3}] 10000 2 \<and>
   ring_builder toy_buffer [{0}, {2}] [{0, 1, 2, 3}] [5, 10] 1 =
     ring_builder toy_buffer [{0}, {2}] [{0, 1, 2, 3}] [5, 10] 2"
proof -
  have v: "buffer_union_clip toy_buffer [{0}, {2}] [{0, 1, 2, 3}] 10000 = Some {0, 1, 2, 3}"
    by (auto simp: buffer_union_clip_def overlay_intersection_def toy_buffer_def)
  have h1: "(1::int) \<le> 1" and h2: "(1::int) \<le> 2" by simp_all
  note t = chunking_equivalence[OF h1 h2, of toy_buffer "[{0}, {2}]" "{0, 1, 2, 3}" 10000 "[5, 10]"]
  show ?thesis using t h1 h2 unfolding v by metis
qed

lemma str_int_zero: "str_int (py_int 0) = ''0''"
  by (simp add: str_int_def py_int_def str_nat.simps digit_char_def)

lemma strict_sorted_normal: "sorted_wrt (<) (ds :: real list) \<Longrightarrow> sort (remdups ds) = ds"
  by (simp add: strict_sorted_iff sorted_sort_id)

lemma buffers_loop_all:
  "\<forall>d\<in>set ds. \<exists>g. buffer_in_chunks buf roads aoi (d * 1000) c = Inr (Some g) \<Longrightarrow>
   \<exists>bs. buffers_loop buf roads aoi c ds = Inr bs \<and> map fst bs = ds"
  by (induction ds) auto

lemma middle_rings_fields:
  "map min_km (middle_rings pd pg bs) = butlast (pd # map fst bs) \<and>
   map max_km (middle_rings pd pg bs) = map Some (map fst bs) \<and>
   map ring_id (middle_rings pd pg bs) =
     map2 ring_label (butlast (pd # map fst bs)) (map Some (map fst bs))"
proof (induction bs arbitrary: pd pg)
  case Nil
  then show ?case by simp
next
  case (Cons b bs)
  obtain d g where b: "b = (d, g)" by (cases b)
  show ?case using Cons.IH[of d g] b by (simp add: ring_label_def)
qed

lemma build_rings_fields:
  assumes "bs \<noteq> []"
  shows "\<exists>rs. build_rings aoi bs = Inr rs \<and>
           map min_km rs = 0 # map fst bs \<and>
           map max_km rs = map Some (map fst bs) @ [None] \<and>
           map ring_id rs = map2 ring_label (0 # map fst bs) (map Some (map fst bs) @ [None])"
proof -
  from assms obtain b rest where bs: "bs = b # rest" by (cases bs) auto
  obtain d0 g0 where b: "b = (d0, g0)" by (cases b)
  obtain dmax gmax where l: "last bs = (dmax, gmax)" by (cases "last bs")
  have dmax: "dmax = last (d0 # map fst rest)"
    using l bs b by (metis assms fst_conv last_map list.simps(9))
  let ?first = "\<lparr>ring_id = ''0-'' @ str_int (py_int d0) @ ''km'',
                    min_km = 0, max_km = Some d0, geometry = g0\<rparr>"
  let ?last = "\<lparr>ring_id = ''>'' @ str_int (py_int dmax) @ ''km'',
                       min_km = dmax, max_km = None, geometry = \<Union> (set aoi) - gmax\<rparr>"
  let ?rs = "?first # middle_rings d0 g0 rest @ [?last]"
  have rs: "build_rings aoi bs = Inr ?rs"
    using l unfolding bs b build_rings_def by simp
  define pre where "pre = butlast (d0 # map fst rest)"
  note m = middle_rings_fields[of d0 g0 rest, folded pre_def]
  have bl: "pre @ [dmax] = d0 # map fst rest"
    unfolding dmax pre_def by (rule append_butlast_last_id) simp
  have mn: "map min_km ?rs = 0 # map fst bs"
    using m bl by (simp add: bs b)
  have mx: "map max_km ?rs = map Some (map fst bs) @ [None]"
    using m by (simp add: bs b)
  have len: "length pre = length (map Some (map fst rest))"
    unfolding pre_def by simp
  have "map2 ring_label (pre @ [dmax]) (map Some (map fst rest) @ [None])
        = map2 ring_label pre (map Some (map fst rest)) @ [ring_label dmax None]"
    using len by simp
  then have "map2 ring_label (d0 # map fst rest) (map Some (map fst rest) @ [None])
        = map ring_id (middle_rings d0 g0 rest) @ [ring_label dmax None]"
    using m unfolding bl by simp
  then have ids: "map ring_id ?rs = map2 ring_label (0 # map fst bs) (map Some (map fst bs) @ [None])"
    by (simp add: bs b ring_label_def str_int_zero)
  show ?thesis
    by (rule exI[of _ ?rs]) (intro conjI rs mn mx ids)
qed

text \<open>
  Claim C2. For a strictly ascending list of positive distances \<open>d1 < \<dots> < dn\<close> whose buffer
  unions are all non-empty, the ring builder succeeds with exactly \<open>n + 1\<close> rings (two for a
  single distance); their \<open>min_km\<close> are \<open>0, d1, \<dots>, dn\<close>, strictly increasing, their
  \<open>max_km\<close> are \<open>d1, \<dots>, dn\<close> and then null, and every \<open>ring_id\<close> is the label of the two
  bounds.
\<close>
theorem ring_records:
  assumes asc: "sorted_wrt (<) ds"
      and ne: "ds \<noteq> []"
      and pos: "\<forall>d\<in>set ds. 0 < d"
      and bufs: "\<forall>d\<in>set ds. \<exists>g. buffer_in_chunks buf roads aoi (d * 1000) c = Inr (Some g)"
  shows "\<exists>out. ring_builder buf roads aoi ds c = Inr out \<and>
           length (rings out) = length ds + 1 \<and>
           map min_km (rings out) = 0 # ds \<and>
           sorted_wrt (<) (map min_km (rings out)) \<and>
           map max_km (rings out) = map Some ds @ [None] \<and>
           map ring_id (rings out) = map2 ring_label (0 # ds) (map Some ds @ [None])"
proof -
  from buffers_loop_all[OF bufs] obtain bs
    where bs: "buffers_loop buf roads aoi c ds = Inr bs" "map fst bs = ds" by blast
  then have "bs \<noteq> []" using ne by auto
  from build_rings_fields[OF this, of aoi] obtain rs where
    rs: "build_rings aoi bs = Inr rs" "map min_km rs = 0 # ds"
        "map max_km rs = map Some ds @ [None]"
        "map ring_id rs = map2 ring_label (0 # ds) (map Some ds @ [None])"
    using bs(2) by auto
  have out: "ring_builder buf roads aoi ds c =
     Inr \<lparr>buffer_files = map (\<lambda>(d, g). (buffer_file_name d, d, g)) bs, rings = rs\<rparr>"
    using bs(1) rs(1) strict_sorted_normal[OF asc] by (simp add: ring_builder_def)
  have len: "length rs = length ds + 1"
    using rs(2) by (metis Suc_eq_plus1 length_Cons length_map)
  have srt: "sorted_wrt (<) (map min_km rs)"
    using asc pos by (simp add: rs(2))
  show ?thesis using out len srt rs(2,3,4) by simp
qed

lemma toy_chunks:
  "1 \<le> c \<Longrightarrow> buffer_in_chunks toy_buffer [{0}] [{0, 1, 2, 3}] 5000 c = Inr (Some {0})"
  "1 \<le> c \<Longrightarrow> buffer_in_chunks toy_buffer [{0}] [{0, 1, 2, 3}] 10000 c = Inr (Some {0, 1})"
  "1 \<le> c \<Longrightarrow> buffer_in_chunks toy_buffer [{0}] [{0, 1, 2, 3}] 20000 c = Inr (Some {0, 1, 2})"
  by (auto simp: buffer_in_chunks_eq buffer_union_clip_def overlay_intersection_def toy_buffer_def)

lemma toy_chunks_far:
  "1 \<le> c \<Longrightarrow> buffer_in_chunks toy_buffer [{0}] [{1, 2, 3}] 5000 c = Inr None"
  "1 \<le> c \<Longrightarrow> buffer_in_chunks toy_buffer [{0}] [{1, 2, 3}] 10000 c = Inr (Some {1})"
  "1 \<le> c \<Longrightarrow> buffer_in_chunks toy_buffer [{0}] [{1, 2, 3}] 20000 c = Inr (Some {1, 2})"
  by (auto simp: buffer_in_chunks_eq buffer_union_clip_def overlay_intersection_def toy_buffer_def)

lemmas label_eval = ring_label_def buffer_file_name_def str_int_def py_int_def str_nat.simps digit_char_def

theorem ring_records_witness:
  "sorted_wrt (<) [5, 10, 20 :: real] \<and>
   (\<exists>out. ring_builder toy_buffer [{0}] [{0, 1, 2, 3}] [5, 10, 20] 1 = Inr out \<and>
      length (rings out) = 4 \<and>
      map min_km (rings out) = [0, 5, 10, 20] \<and>
      map max_km (rings out) = [Some 5, Some 10, Some 20, None] \<and>
      map ring_id (rings out) = [''0-5km'', ''5-10km'', ''10-20km'', ''>20km''])"
proof -
  have h1: "sorted_wrt (<) [5, 10, 20 :: real]" by simp
  have h2: "[5, 10, 20 :: real] \<noteq> []" by simp
  have h3: "\<forall>d\<in>set [5, 10, 20 :: real]. 0 < d" by simp
  have h4: "\<forall>d\<in>set [5, 10, 20]. \<exists>g. buffer_in_chunks toy_buffer [{0}] [{0, 1, 2, 3}] (d * 1000) 1 = Inr (Some g)"
    by (simp add: toy_chunks)
  have l: "map2 ring_label (0 # [5, 10, 20]) (map Some [5, 10, 20] @ [None]) =
      [''0-5km'', ''5-10km'', ''10-20km'', ''>20km'']"
    by (simp add: label_eval)
  from ring_records[OF h1 h2 h3 h4] obtain out where
    o: "ring_builder toy_buffer [{0}] [{0, 1, 2, 3}] [5, 10, 20] 1 = Inr out"
    "length (rings out) = 4" "map min_km (rings out) = [0, 5, 10, 20]"
    "map max_km (rings out) = [Some 5, Some 10, Some 20, None]"
    "map ring_id (rings out) = [''0-5km'', ''5-10km'', ''10-20km'', ''>20km'']"
    unfolding l by auto
  show ?thesis
    by (intro conjI h1 exI[of _ out] o)
qed

lemma sort_remdups_idem: "sort (remdups (sort (remdups xs))) = sort (remdups (xs :: real list))"
proof -
  have "distinct (sort (remdups xs))" by simp
  then have "remdups (sort (remdups xs)) = sort (remdups xs)" by (rule distinct_remdups_id)
  then show ?thesis by (simp add: sorted_sort_id)
qed

text \<open>
  Claim C3, as amended. The ring builder never rejects a distance list: a list that is out
  of order or holds duplicates is sorted and deduplicated silently, and the result is the one
  of the sorted, deduplicated list.
\<close>
theorem distances_normalised:
  "ring_builder buf roads aoi dists c = ring_builder buf roads aoi (sort (remdups dists)) c"
  by (simp add: ring_builder_def sort_remdups_idem)

theorem distances_normalised_witness:
  "ring_builder toy_buffer [{0}] [{0, 1, 2, 3}] [10, 5, 5] 1 =
   ring_builder toy_buffer [{0}] [{0, 1, 2, 3}] [5, 10] 1"
  using distances_normalised[of toy_buffer "[{0}]" "[{0, 1, 2, 3}]" "[10, 5, 5]" 1] by simp

text \<open>
  Claim C3 as stated fails: on the distances 10, 5, 5 the ring builder returns rings instead of
  a validation error.
\<close>
theorem no_validation_counterexample:
  "\<not> sorted_wrt (<) [10, 5, 5 :: real] \<and>
   ring_builder toy_buffer [{0}] [{0, 1, 2, 3}] [10, 5, 5] 1 =
     Inr \<lparr>buffer_files = [(''roads_buffer_5km.shp'', 5, {0}), (''roads_buffer_10km.shp'', 10, {0, 1})],
          rings = [\<lparr>ring_id = ''0-5km'', min_km = 0, max_km = Some 5, geometry = {0}\<rparr>,
                   \<lparr>ring_id = ''5-10km'', min_km = 5, max_km = Some 10, geometry = {1}\<rparr>,
                   \<lparr>ring_id = ''>10km'', min_km = 10, max_km = None, geometry = {2, 3}\<rparr>]\<rparr>"
  by (auto simp: ring_builder_def toy_chunks build_rings_def label_eval)

lemma buffers_loop_filter:
  "c \<noteq> 0 \<Longrightarrow>
   buffers_loop buf roads aoi c ds =
     Inr (map (\<lambda>d. (d, case buffer_in_chunks buf roads aoi (d * 1000) c of
                          Inr (Some g) \<Rightarrow> g | _ \<Rightarrow> {}))
            (filter (buffer_nonempty buf roads aoi c) ds))"
proof (induction ds)
  case Nil
  then show ?case by simp
next
  case (Cons d ds)
  from Cons.prems have "\<exists>r. buffer_in_chunks buf roads aoi (d * 1000) c = Inr r"
    by (simp add: buffer_in_chunks_def Let_def)
  then obtain r where r: "buffer_in_chunks buf roads aoi (d * 1000) c = Inr r" ..
  show ?case using Cons r by (cases r) (simp_all add: buffer_nonempty_def)
qed

lemma buffer_nonempty_chunk: "buffer_nonempty buf roads aoi c d \<Longrightarrow> c \<noteq> 0"
  by (auto simp: buffer_nonempty_def buffer_in_chunks_def)

text \<open>
  Claim C9, as amended. When some distance has an empty buffer union and another one has not,
  the ring builder does not fail; it skips the distances with an empty buffer union, so its
  output is the one for the remaining distances: no ring carries a skipped distance as a bound.
\<close>
theorem empty_buffer_skipped:
  assumes "\<exists>d\<in>set dists. buffer_nonempty buf roads aoi c d"
  shows "\<exists>out. ring_builder buf roads aoi dists c = Inr out \<and>
           ring_builder buf roads aoi (filter (buffer_nonempty buf roads aoi c) dists) c = Inr out \<and>
           map min_km (rings out) = 0 # filter (buffer_nonempty buf roads aoi c) (sort (remdups dists)) \<and>
           map max_km (rings out) =
             map Some (filter (buffer_nonempty buf roads aoi c) (sort (remdups dists))) @ [None]"
proof -
  let ?P = "buffer_nonempty buf roads aoi c"
  let ?G = "\<lambda>d. (d, case buffer_in_chunks buf roads aoi (d * 1000) c of
                          Inr (Some g) \<Rightarrow> g | _ \<Rightarrow> {})"
  let ?kept = "filter ?P (sort (remdups dists))"
  from assms obtain d where d: "d \<in> set dists" "?P d" by blast
  then have c: "c \<noteq> 0" by (auto dest: buffer_nonempty_chunk)
  have "d \<in> set ?kept" using d by simp
  then have kept: "?kept \<noteq> []" by (metis empty_iff empty_set)
  have same: "sort (remdups (filter ?P dists)) = ?kept"
    by (simp add: remdups_filter filter_sort)
  have b1: "buffers_loop buf roads aoi c (sort (remdups dists)) = Inr (map ?G ?kept)"
    by (rule buffers_loop_filter[OF c])
  have b2: "buffers_loop buf roads aoi c (sort (remdups (filter ?P dists))) = Inr (map ?G ?kept)"
    unfolding same buffers_loop_filter[OF c] by simp
  have "map ?G ?kept \<noteq> []" using kept by simp
  from build_rings_fields[OF this, of aoi] obtain rs where
    rs: "build_rings aoi (map ?G ?kept) = Inr rs" "map min_km rs = 0 # ?kept"
        "map max_km rs = map Some ?kept @ [None]"
    by (auto simp: comp_def)
  let ?out = "\<lparr>buffer_files = map (\<lambda>(d, g). (buffer_file_name d, d, g)) (map ?G ?kept), rings = rs\<rparr>"
  have o1: "ring_builder buf roads aoi dists c = Inr ?out"
    using b1 rs(1) by (simp add: ring_builder_def)
  have o2: "ring_builder buf roads aoi (filter ?P dists) c = Inr ?out"
    using b2 rs(1) by (simp add: ring_builder_def)
  show ?thesis
    by (rule exI[of _ ?out]) (use o1 o2 rs(2,3) in simp)
qed

theorem empty_buffer_skipped_witness:
  "(\<exists>d\<in>set [5, 10, 20]. buffer_nonempty toy_buffer [{0}] [{1, 2, 3}] 1 d) \<and>
   \<not> buffer_nonempty toy_buffer [{0}] [{1, 2, 3}] 1 5 \<and>
   (\<exists>out. ring_builder toy_buffer [{0}] [{1, 2, 3}] [5, 10, 20] 1 = Inr out \<and>
      ring_builder toy_buffer [{0}] [{1, 2, 3}] [10, 20] 1 = Inr out \<and>
      map min_km (rings out) = [0, 10, 20] \<and>
      map max_km (rings out) = [Some 10, Some 20, None])"
proof -
  have p: "\<not> buffer_nonempty toy_buffer [{0}] [{1, 2, 3}] 1 5"
     "buffer_nonempty toy_buffer [{0}] [{1, 2, 3}] 1 10"
     "buffer_nonempty toy_buffer [{0}] [{1, 2, 3}] 1 20"
    by (simp_all add: buffer_nonempty_def toy_chunks_far)
  have h: "\<exists>d\<in>set [5, 10, 20]. buffer_nonempty toy_buffer [{0}] [{1, 2, 3}] 1 d"
    using p by simp
  show ?thesis
    using empty_buffer_skipped[OF h] h p by simp
qed

text \<open>
  Claim C9 as stated fails: with an empty buffer union at 5 km the output has no ring for
  that distance; the first ring is \<open>0-10km\<close>.
\<close>
theorem empty_buffer_counterexample:
  "buffer_in_chunks toy_buffer [{0}] [{1, 2, 3}] (5 * 1000) 1 = Inr None \<and>
   ring_builder toy_buffer [{0}] [{1, 2, 3}] [5, 10, 20] 1 =
     Inr \<lparr>buffer_files = [(''roads_buffer_10km.shp'', 10, {1}), (''roads_buffer_20km.shp'', 20, {1, 2})],
          rings = [\<lparr>ring_id = ''0-10km'', min_km = 0, max_km = Some 10, geometry = {1}\<rparr>,
                   \<lparr>ring_id = ''10-20km'', min_km = 10, max_km = Some 20, geometry = {2}\<rparr>,
                   \<lparr>ring_id = ''>20km'', min_km = 20, max_km = None, geometry = {3}\<rparr>]\<rparr>"
  by (auto simp: ring_builder_def toy_chunks_far build_rings_def label_eval)

lemma main03_ring_builder:
  "road_classes args = None \<Longrightarrow>
   main03 buf (Some aoi) (Some roads) args =
     ring_builder buf (map snd (segments roads)) aoi (dist_arg args) (chunk_size args)"
  by (simp add: main03_def)

section \<open>Properties of the float64 sum\<close>













section \<open>Properties of the aggregates\<close>



































section \<open>Properties of the overlay engine\<close>

lemma unary_union_unbound: "lookup_global module_globals04 ''unary_union'' = Inl (NameError ''unary_union'')"
  by (simp add: lookup_global_def module_globals04_def)

lemma main04_name_error:
  "find_year_col (columns prodes) = Some year_col \<Longrightarrow>
   main04 fsum envelope area overlay_exn (Some rings_gdf) (Some prodes) = Inl (NameError ''unary_union'')"
  by (simp add: main04_def unary_union_unbound)

lemma ex_year_col: "find_year_col (columns ex_prodes) = Some ''YEAR''"
  by code_simp

lemma ex_far_year_col: "find_year_col (columns ex_prodes_far) = Some ''year''"
  by code_simp

lemma ex_no_year_col: "find_year_col (columns ex_prodes_no_year) = None"
  by code_simp

text \<open>
  Claim C10. \<open>unary_union\<close> is not among the names bound in the module of
  04\_intersection.py; whenever the two input files exist and the deforestation table has a
  year column, \<open>main\<close> ends with a \<open>NameError\<close> at the bounding-box step and writes
  no output.
\<close>
theorem unary_union_name_error:
  assumes "find_year_col (columns prodes) \<noteq> None"
  shows "''unary_union'' \<notin> set module_globals04 \<and>
         main04 fsum envelope area overlay_exn (Some rings_gdf) (Some prodes) = Inl (NameError ''unary_union'')"
proof -
  from assms obtain year_col where "find_year_col (columns prodes) = Some year_col" by auto
  then have "main04 fsum envelope area overlay_exn (Some rings_gdf) (Some prodes) = Inl (NameError ''unary_union'')"
    by (rule main04_name_error)
  moreover have "''unary_union'' \<notin> set module_globals04"
    by (simp add: module_globals04_def)
  ultimately show ?thesis by simp
qed

theorem unary_union_name_error_witness:
  "find_year_col (columns ex_prodes) = Some ''YEAR'' \<and>
   main04 sum64 toy_envelope toy_area None (Some ex_rings) (Some ex_prodes) = Inl (NameError ''unary_union'')"
proof -
  have h: "find_year_col (columns ex_prodes) \<noteq> None" by (simp add: ex_year_col)
  show ?thesis
    using unary_union_name_error[OF h, of sum64 toy_envelope toy_area None ex_rings] ex_year_col by simp
qed

lemma ex_inter_rows:
  "inter_rows toy_area (columns ex_prodes) ''YEAR'' (overlay_rings (features ex_prodes) ex_rings) = ex_inter"
  by code_simp

lemma ex_overlay_nonempty: "overlay_rings (features ex_prodes) ex_rings \<noteq> []"
  by code_simp

lemma main04_no_preclip_ex:
  "main04_no_preclip fsum toy_area None (Some ex_rings) (Some ex_prodes) =
     Inr (save_outputs fsum ''YEAR'' ex_inter)"
  by (simp add: main04_no_preclip_def overlay_stage04_def ex_year_col ex_inter_rows ex_overlay_nonempty)

text \<open>
  Claim C7. In 04\_intersection.py the bounding-box clip is not neutral: with the step the
  script ends with a \<open>NameError\<close> for \<open>unary_union\<close>, without it the same input yields four
  intersection features and their aggregates. In 05\_precompute\_intersections.py, where
  the name is imported, the step is neutral (\<open>preclip_neutral05\<close> below).
\<close>
theorem preclip_changes_output04:
  "main04 sum64 toy_envelope toy_area None (Some ex_rings) (Some ex_prodes) = Inl (NameError ''unary_union'') \<and>
   main04_no_preclip sum64 toy_area None (Some ex_rings) (Some ex_prodes) = Inr (save_outputs sum64 ''YEAR'' ex_inter)"
  by (simp add: main04_name_error[OF ex_year_col] main04_no_preclip_ex)

lemma overlay_clip_neutral:
  assumes "\<forall>r\<in>set rs. snd r \<subseteq> bbox"
  shows "overlay_rings (clip rows bbox) rs = overlay_rings rows rs"
proof (induction rows)
  case Nil
  then show ?case by (simp add: clip_def overlay_rings_def)
next
  case (Cons row rows)
  obtain a g where row: "row = (a, g)" by (cases row)
  have tail: "overlay_rings (clip (row # rows) bbox) rs =
      overlay_rings (clip [row] bbox) rs @ overlay_rings (clip rows bbox) rs"
    by (simp add: clip_def overlay_rings_def)
  have tail': "overlay_rings (row # rows) rs = overlay_rings [row] rs @ overlay_rings rows rs"
    by (simp add: overlay_rings_def)
  have inner: "g \<inter> bbox \<inter> snd r = g \<inter> snd r" if "r \<in> set rs" for r
    using assms that by auto
  have head: "overlay_rings (clip [row] bbox) rs = overlay_rings [row] rs"
  proof (cases "g \<inter> bbox = {}")
    case True
    have "g \<inter> snd r = {}" if "r \<in> set rs" for r
      using inner[OF that] True by auto
    then have "filter (\<lambda>r. g \<inter> snd r \<noteq> {}) rs = []"
      by (auto simp: filter_empty_conv)
    then show ?thesis using True by (simp add: clip_def overlay_rings_def row split_def)
  next
    case False
    have f: "filter (\<lambda>r. g \<inter> bbox \<inter> snd r \<noteq> {}) rs = filter (\<lambda>r. g \<inter> snd r \<noteq> {}) rs"
      by (rule filter_cong) (auto simp: inner)
    have "map (\<lambda>r. (a, fst r, g \<inter> bbox \<inter> snd r)) (filter (\<lambda>r. g \<inter> snd r \<noteq> {}) rs) =
          map (\<lambda>r. (a, fst r, g \<inter> snd r)) (filter (\<lambda>r. g \<inter> snd r \<noteq> {}) rs)"
      by (rule map_cong) (auto simp: inner)
    then show ?thesis using False f by (simp add: clip_def overlay_rings_def row split_def)
  qed
  show ?case unfolding tail tail' head Cons.IH ..
qed

lemma preclip_neutral05:
  assumes "\<forall>g. g \<subseteq> envelope g"
  shows "precompute05 fsum polys envelope area rings_file prodes_file =
         precompute05_no_preclip fsum polys area rings_file prodes_file"
proof (cases rings_file)
  case None
  then show ?thesis by (simp add: precompute05_def precompute05_no_preclip_def)
next
  case (Some rings0)
  show ?thesis
  proof (cases prodes_file)
    case None
    then show ?thesis using Some by (simp add: precompute05_def precompute05_no_preclip_def)
  next
    case (Some prodes0)
    let ?rs = "fix_geoms polys rings0"
    let ?bbox = "envelope (\<Union> (set (map snd ?rs)))"
    have "\<forall>r\<in>set ?rs. snd r \<subseteq> ?bbox"
    proof (clarify)
      fix rid rg x assume "(rid, rg) \<in> set ?rs" "x \<in> snd (rid, rg)"
      then have "x \<in> \<Union> (set (map snd ?rs))" by force
      then show "x \<in> ?bbox" using assms by blast
    qed
    then have eq: "overlay_rings (clip (fix_geoms polys (features prodes0)) ?bbox) ?rs =
               overlay_rings (fix_geoms polys (features prodes0)) ?rs"
      by (rule overlay_clip_neutral)
    have eq': "overlay_rings (clip (fix_geoms polys (features prodes0))
                   (envelope (\<Union> (snd ` set ?rs)))) ?rs =
               overlay_rings (fix_geoms polys (features prodes0)) ?rs"
      using eq by simp
    show ?thesis
      using Some \<open>rings_file = Some rings0\<close>
      by (simp add: precompute05_def precompute05_no_preclip_def Let_def eq' cong: option.case_cong)
  qed
qed

lemma empty_overlay_outputs05:
  assumes "overlay_rings (clip (fix_geoms polys (features prodes))
                     (envelope (\<Union> (set (map snd (fix_geoms polys rings_gdf))))))
                  (fix_geoms polys rings_gdf) = []"
  shows "precompute05 fsum polys envelope area (Some rings_gdf) (Some prodes) = Inr (empty_outputs ''year'')"
  using assms by (simp add: precompute05_def Let_def)

lemma ex_far_overlay:
  "overlay_rings (features ex_prodes_far) ex_rings = []"
  "overlay_rings (clip (fix_geoms toy_polys (features ex_prodes_far))
                     (toy_envelope (\<Union> (set (map snd (fix_geoms toy_polys ex_rings))))))
                  (fix_geoms toy_polys ex_rings) = []"
  by code_simp+

lemma ex_no_year_overlay:
  "overlay_rings (clip (fix_geoms toy_polys (features ex_prodes_no_year))
                     (toy_envelope (\<Union> (set (map snd (fix_geoms toy_polys ex_rings))))))
                  (fix_geoms toy_polys ex_rings) = []"
  by code_simp

lemma main04_no_preclip_far:
  "main04_no_preclip fsum toy_area None (Some ex_rings) (Some ex_prodes_far) =
     Inr (empty_outputs ''year'')"
  by (simp add: main04_no_preclip_def overlay_stage04_def ex_far_year_col ex_far_overlay)

text \<open>
  Claim C4. A deforestation table with a year column whose one polygon meets no ring, so that
  the overlay yields no intersection feature: 05\_precompute\_intersections.py writes the
  empty feature table and the two empty aggregate tables, and so would the rest of
  04\_intersection.py, but 04 ends with a \<open>NameError\<close> for \<open>unary_union\<close> before the overlay
  and writes nothing.
\<close>
theorem empty_overlap_name_error04:
  "overlay_rings (features ex_prodes_far) ex_rings = [] \<and>
   main04 sum64 toy_envelope toy_area None (Some ex_rings) (Some ex_prodes_far) =
     Inl (NameError ''unary_union'') \<and>
   main04_no_preclip sum64 toy_area None (Some ex_rings) (Some ex_prodes_far) =
     Inr (empty_outputs ''year'') \<and>
   precompute05 sum64 toy_polys toy_envelope toy_area (Some ex_rings) (Some ex_prodes_far) =
     Inr (empty_outputs ''year'')"
  by (simp add: ex_far_overlay(1) main04_name_error[OF ex_far_year_col] main04_no_preclip_far
        empty_overlay_outputs05[where polys = toy_polys and envelope = toy_envelope and prodes = ex_prodes_far
          and rings_gdf = ex_rings, OF ex_far_overlay(2)])

text \<open>
  Claim C5. A deforestation table without a year column that meets no ring: 04 stops with the
  fatal error, 05 writes the empty outputs and ends normally, because it looks for the year
  column only when the intersection is not empty.
\<close>
theorem year_check_skipped05:
  "find_year_col (columns ex_prodes_no_year) = None \<and>
   main04 sum64 toy_envelope toy_area None (Some ex_rings) (Some ex_prodes_no_year) =
     Inl (SysExit ''Coluna year nao encontrada no PRODES.'') \<and>
   precompute05 sum64 toy_polys toy_envelope toy_area (Some ex_rings) (Some ex_prodes_no_year) =
     Inr (empty_outputs ''year'')"
  by (simp add: ex_no_year_col main04_def empty_overlay_outputs05[where polys = toy_polys and envelope = toy_envelope
        and prodes = ex_prodes_no_year and rings_gdf = ex_rings, OF ex_no_year_overlay])

lemma missing_year_fatal04:
  "find_year_col (columns prodes) = None \<Longrightarrow>
   main04 fsum envelope area overlay_exn (Some rings_gdf) (Some prodes) =
     Inl (SysExit ''Coluna year nao encontrada no PRODES.'')"
  by (simp add: main04_def)

lemma missing_year_fatal05:
  "find_year_col (columns prodes) = None \<Longrightarrow>
   precompute05 fsum polys envelope area (Some rings_gdf) (Some prodes) =
     (if overlay_rings (clip (fix_geoms polys (features prodes))
                     (envelope (\<Union> (set (map snd (fix_geoms polys rings_gdf))))))
                  (fix_geoms polys rings_gdf) = []
      then Inr (empty_outputs ''year'')
      else Inl (RuntimeError ''Coluna year nao encontrada no PRODES recortado.''))"
proof -
  assume a: "find_year_col (columns prodes) = None"
  have "find_year_col (cs @ [''ring_id'', ''geometry'']) = None" if "find_year_col cs = None" for cs
    using that
  proof (induction cs)
    case Nil
    show ?case by code_simp
  next
    case (Cons c cs)
    then show ?case by (auto split: if_splits)
  qed
  from this[OF a] show ?thesis
    by (simp add: precompute05_def Let_def)
qed

end
